theory Spec2Isabelle
  imports Main "HOL-Library.Char_ord" "HOL-Library.List_Lexorder" "HOL-Library.AList"
begin

section \<open>Manifests and the change summary\<close>

text \<open>
  A manifest file is the JSON document
  \<^verbatim>\<open>{"files": {"<relative_path>": {"hash": ..., "size": ..., "mtime": ...}}}\<close>.
  Its \<open>files\<close> dictionary is an association list from the relative path (forward
  slashes, relative to the project root) to the entry; \<open>map_of\<close> is the lookup.
\<close>

record manifest_entry =
  entry_hash :: string
  entry_size :: nat
  entry_mtime :: int

type_synonym entries = "(string \<times> manifest_entry) list"

text \<open>
  The dictionary \<^verbatim>\<open>summary\<close> that \<^verbatim>\<open>_load_changed_files\<close> reads: the three lists
  \<^verbatim>\<open>summary["added"]\<close>, \<^verbatim>\<open>summary["modified"]\<close> and \<^verbatim>\<open>summary["deleted"]\<close>.
\<close>

record summary =
  added :: "string list"
  modified :: "string list"
  deleted :: "string list"

definition keys :: "entries \<Rightarrow> string list" where
  "keys m = remdups (map fst m)"

definition hash_differs :: "entries \<Rightarrow> entries \<Rightarrow> string \<Rightarrow> bool" where
  "hash_differs previous current k =
     (case map_of previous k of
        None \<Rightarrow> False
      | Some p \<Rightarrow>
          (case map_of current k of
             None \<Rightarrow> False
           | Some c \<Rightarrow> entry_hash p \<noteq> entry_hash c))"

text \<open>
  Modelled from the spec: \<^verbatim>\<open>summarize_changes\<close> of \<^verbatim>\<open>unslop/manifest.py\<close>, which is
  imported by \<^verbatim>\<open>diagram.py\<close> and is not among the source files. Section 4.3 of the
  specification: \<open>added = keys(current) - keys(previous)\<close>,
  \<open>deleted = keys(previous) - keys(current)\<close>, and a key of both is modified iff the
  two content hashes differ. The caller concatenates the three values with \<^verbatim>\<open>+\<close>, so
  they are lists.
\<close>

definition summarize_changes :: "entries \<Rightarrow> entries \<Rightarrow> summary" where
  "summarize_changes previous current =
     \<lparr> added = filter (\<lambda>k. map_of previous k = None) (keys current),
       modified = filter (hash_differs previous current) (keys current),
       deleted = filter (\<lambda>k. map_of current k = None) (keys previous) \<rparr>"

text \<open>The part of a manifest that the hashes make up: sizes and times left out.\<close>

definition hashes :: "entries \<Rightarrow> (string \<times> string) list" where
  "hashes m = map (\<lambda>(k, e). (k, entry_hash e)) m"

section \<open>Paths and the file system\<close>

text \<open>
  A \<^verbatim>\<open>pathlib.Path\<close> is the list of its components below the root directory; a
  string handed to \<^verbatim>\<open>/\<close> is cut at its slashes, empty components and \<^verbatim>\<open>.\<close> are
  dropped, and a string that starts with a slash replaces the left operand. The file
  system is an association list from paths to nodes, a node being a regular file with
  its text or a directory. Symbolic links, permissions and other kinds of entry are not
  modelled, and characters are code points below 256.
\<close>

type_synonym path = "string list"

datatype node = File string | Dir

type_synonym fs = "(path \<times> node) list"

datatype exn =
    FileNotFoundError
  | FileExistsError
  | IsADirectoryError
  | NotADirectoryError
  | PermissionError
  | ValueError
  | AttributeError
  | SameFileError
  | TimeoutExpired
  | ServiceError string

fun splitc :: "char \<Rightarrow> string \<Rightarrow> string list" where
  "splitc c [] = [[]]"
| "splitc c (x # xs) =
     (if x = c then [] # splitc c xs
      else (case splitc c xs of [] \<Rightarrow> [[x]] | w # ws \<Rightarrow> (x # w) # ws))"

definition parts :: "string \<Rightarrow> path" where
  "parts s = filter (\<lambda>w. w \<noteq> [] \<and> w \<noteq> ''.'') (splitc (CHR ''/'') s)"

definition joinpath :: "path \<Rightarrow> string \<Rightarrow> path" where
  "joinpath p s = (if s \<noteq> [] \<and> hd s = CHR ''/'' then parts s else p @ parts s)"

fun intercalate :: "string \<Rightarrow> string list \<Rightarrow> string" where
  "intercalate sep [] = []"
| "intercalate sep [x] = x"
| "intercalate sep (x # y # ys) = x @ sep @ intercalate sep (y # ys)"

definition as_posix :: "path \<Rightarrow> string" where
  "as_posix rel = (if rel = [] then ''.'' else intercalate ''/'' rel)"

definition startswith :: "'a list \<Rightarrow> 'a list \<Rightarrow> bool" where
  "startswith s p = (take (length p) s = p)"

definition relative_to :: "path \<Rightarrow> path \<Rightarrow> exn + path" where
  "relative_to p other =
     (if startswith p other then Inr (drop (length other) p) else Inl ValueError)"

definition name :: "path \<Rightarrow> string" where
  "name p = (if p = [] then [] else last p)"

definition parent :: "path \<Rightarrow> path" where
  "parent p = butlast p"

definition exists :: "fs \<Rightarrow> path \<Rightarrow> bool" where
  "exists f p = (map_of f p \<noteq> None)"

definition is_dir :: "fs \<Rightarrow> path \<Rightarrow> bool" where
  "is_dir f p = (map_of f p = Some Dir)"

definition is_file :: "fs \<Rightarrow> path \<Rightarrow> bool" where
  "is_file f p = (case map_of f p of Some (File t) \<Rightarrow> True | _ \<Rightarrow> False)"

definition read_text :: "fs \<Rightarrow> path \<Rightarrow> exn + string" where
  "read_text f p =
     (case map_of f p of
        None \<Rightarrow> Inl FileNotFoundError
      | Some Dir \<Rightarrow> Inl IsADirectoryError
      | Some (File t) \<Rightarrow> Inr t)"

definition write_text :: "fs \<Rightarrow> path \<Rightarrow> string \<Rightarrow> exn + fs" where
  "write_text f p t =
     (if is_dir f p then Inl IsADirectoryError
      else if is_file f (parent p) then Inl NotADirectoryError
      else if \<not> is_dir f (parent p) then Inl FileNotFoundError
      else Inr (AList.update p (File t) f))"

section \<open>Selecting the changed files (diagram.py)\<close>

text \<open>
  \<^verbatim>\<open>find_previous_manifest\<close> and \<^verbatim>\<open>read_manifest_entries\<close> are imported from
  \<^verbatim>\<open>unslop/manifest.py\<close>, which is not among the source files; together with
  \<^verbatim>\<open>summarize_changes\<close> they are parameters of the functions below, typed as the
  callers use them (\<^verbatim>\<open>Path | None\<close>, \<^verbatim>\<open>dict | None\<close>, a dictionary of three lists).
\<close>

record manifest_api =
  find_previous_manifest :: "fs \<Rightarrow> path \<Rightarrow> path \<Rightarrow> path option"
  read_manifest_entries :: "fs \<Rightarrow> path \<Rightarrow> entries option"
  summarize :: "entries \<Rightarrow> entries \<Rightarrow> summary"

type_synonym dict = "(string \<times> string) list"

definition rstrip_slash :: "string \<Rightarrow> string" where
  "rstrip_slash s = rev (dropWhile (\<lambda>c. c = CHR ''/'') (rev s))"

text \<open>
  \<^verbatim>\<open>prefix.rstrip("/") + "/"\<close> when the source directory lies strictly below the
  root, the empty string otherwise.
\<close>

definition source_prefix :: "path \<Rightarrow> string" where
  "source_prefix relative_source =
     (let prefix = as_posix relative_source
      in if prefix \<noteq> [] \<and> prefix \<noteq> ''.'' then rstrip_slash prefix @ ''/'' else [])"

text \<open>
  One turn of the loop \<^verbatim>\<open>for path_str in changed_paths\<close>. The \<^verbatim>\<open>isinstance\<close> test
  is always passed by a string. The membership tests look the rebased
  \<^verbatim>\<open>relative_path\<close> up in the lists of the summary, as the source does.
\<close>

definition classify_path :: "summary \<Rightarrow> fs \<Rightarrow> path \<Rightarrow> string \<Rightarrow> string \<Rightarrow> dict \<Rightarrow> dict" where
  "classify_path sm f source_dir prefix path_str changed_files =
     (if prefix \<noteq> [] \<and> \<not> startswith path_str prefix then changed_files
      else
        let relative_path = (if prefix \<noteq> [] then drop (length prefix) path_str else path_str)
        in if relative_path = [] then changed_files
           else if relative_path \<in> set (deleted sm)
             then AList.update relative_path ''deleted'' changed_files
           else if \<not> is_file f (joinpath source_dir relative_path) then changed_files
           else if relative_path \<in> set (added sm)
             then AList.update relative_path ''added'' changed_files
           else if relative_path \<in> set (modified sm)
             then AList.update relative_path ''updated'' changed_files
           else AList.update relative_path ''updated'' changed_files)"

definition load_changed_files :: "manifest_api \<Rightarrow> fs \<Rightarrow> path \<Rightarrow> path \<Rightarrow> path \<Rightarrow> dict option" where
  "load_changed_files api f root source_dir output_dir =
     (let current_manifest = joinpath output_dir ''manifest.json''
      in if \<not> is_file f current_manifest then None
         else
           (case find_previous_manifest api f root output_dir of
              None \<Rightarrow> None
            | Some previous_manifest \<Rightarrow>
                (case (read_manifest_entries api f current_manifest,
                       read_manifest_entries api f previous_manifest) of
                   (Some current_entries, Some previous_entries) \<Rightarrow>
                     (let sm = summarize api previous_entries current_entries;
                          changed_paths = added sm @ modified sm @ deleted sm
                      in if changed_paths = [] then Some []
                         else
                           (case relative_to source_dir root of
                              Inl e \<Rightarrow> None
                            | Inr relative_source \<Rightarrow>
                                Some (fold (classify_path sm f source_dir
                                              (source_prefix relative_source))
                                        changed_paths [])))
                 | _ \<Rightarrow> None)))"

section \<open>Combining the source files (diagram.py)\<close>

text \<open>
  Text helpers of Python's \<^verbatim>\<open>str\<close>, on code points below 256: the line boundaries of
  \<^verbatim>\<open>splitlines\<close>, the white space of \<^verbatim>\<open>rstrip\<close>, the decimal digits of
  \<^verbatim>\<open>\d\<close>, and \<^verbatim>\<open>str\<close> of a natural number.
\<close>

definition is_linebreak :: "char \<Rightarrow> bool" where
  "is_linebreak c =
     (c \<in> set [CHR 0x0A, CHR 0x0D, CHR 0x0B, CHR 0x0C, CHR 0x1C, CHR 0x1D, CHR 0x1E, CHR 0x85])"

definition is_space :: "char \<Rightarrow> bool" where
  "is_space c =
     (c \<in> set [CHR 0x09, CHR 0x0A, CHR 0x0B, CHR 0x0C, CHR 0x0D, CHR 0x1C, CHR 0x1D, CHR 0x1E,
               CHR 0x1F, CHR 0x20, CHR 0x85, CHR 0xA0])"

definition is_digit :: "char \<Rightarrow> bool" where
  "is_digit c = (c \<in> set ''0123456789'')"

fun splitlines_from :: "string \<Rightarrow> string \<Rightarrow> string list" where
  "splitlines_from cur [] = (if cur = [] then [] else [cur])"
| "splitlines_from cur [c] = (if is_linebreak c then [cur] else [cur @ [c]])"
| "splitlines_from cur (c # d # cs) =
     (if c = CHR 0x0D \<and> d = CHR 0x0A then cur # splitlines_from [] cs
      else if is_linebreak c then cur # splitlines_from [] (d # cs)
      else splitlines_from (cur @ [c]) (d # cs))"

definition splitlines :: "string \<Rightarrow> string list" where
  "splitlines t = splitlines_from [] t"

definition rstrip :: "string \<Rightarrow> string" where
  "rstrip s = rev (dropWhile is_space (rev s))"

definition digit_char :: "nat \<Rightarrow> char" where
  "digit_char d = ''0123456789'' ! d"

fun str_nat :: "nat \<Rightarrow> string" where
  "str_nat n = (if n < 10 then [digit_char n] else str_nat (n div 10) @ [digit_char (n mod 10)])"

declare str_nat.simps [simp del]

text \<open>\<^verbatim>\<open>any(part.startswith(".") for part in rel_path.parts)\<close>\<close>

definition hidden :: "path \<Rightarrow> bool" where
  "hidden rel = list_ex (\<lambda>part. startswith part ''.'') rel"

definition numbered :: "string list \<Rightarrow> string list" where
  "numbered ls = map (\<lambda>(i, line). ''['' @ str_nat i @ ''] '' @ line) (zip [1 ..< Suc (length ls)] ls)"

text \<open>
  The lines one file adds to \<^verbatim>\<open>parts\<close>: nothing when the file is filtered out,
  else its header, its numbered lines and an empty line. A file holds its decoded text
  (the fallback from UTF-8 to Latin-1 is inside \<^verbatim>\<open>read_text\<close>).
\<close>

definition file_block :: "fs \<Rightarrow> path \<Rightarrow> dict option \<Rightarrow> path \<Rightarrow> exn + string list" where
  "file_block f src_path allowed_files file_path =
     (let rel_path = drop (length src_path) file_path;
          rel_path_str = as_posix rel_path
      in if (case allowed_files of None \<Rightarrow> False | Some d \<Rightarrow> map_of d rel_path_str = None)
           then Inr []
         else if hidden rel_path then Inr []
         else
           let status = (case allowed_files of
                           None \<Rightarrow> None
                         | Some d \<Rightarrow> if d = [] then None else map_of d rel_path_str);
               label = (case status of
                          None \<Rightarrow> []
                        | Some st \<Rightarrow> if st = [] then [] else '' ('' @ st @ '')'')
           in (case read_text f file_path of
                 Inl e \<Rightarrow> Inl e
               | Inr t \<Rightarrow>
                   Inr ((''### FILE: '' @ rel_path_str @ label) # numbered (splitlines t) @ [[]])))"

fun file_blocks :: "fs \<Rightarrow> path \<Rightarrow> dict option \<Rightarrow> path list \<Rightarrow> exn + string list" where
  "file_blocks f src_path allowed_files [] = Inr []"
| "file_blocks f src_path allowed_files (file_path # files) =
     (case file_block f src_path allowed_files file_path of
        Inl e \<Rightarrow> Inl e
      | Inr b \<Rightarrow>
          (case file_blocks f src_path allowed_files files of
             Inl e \<Rightarrow> Inl e
           | Inr bs \<Rightarrow> Inr (b @ bs)))"

text \<open>
  \<^verbatim>\<open>src_path.rglob("*")\<close>: every entry strictly below the directory. Paths are ordered
  as Python orders them, component by component.
\<close>

definition rglob :: "fs \<Rightarrow> path \<Rightarrow> path list" where
  "rglob f d =
     (if is_dir f d
      then filter (\<lambda>p. startswith p d \<and> length d < length p) (remdups (map fst f))
      else [])"

definition deleted_block :: "dict option \<Rightarrow> string list" where
  "deleted_block allowed_files =
     (case allowed_files of
        None \<Rightarrow> []
      | Some d \<Rightarrow>
          if d = [] then []
          else
            concat (map (\<lambda>rel_path_str. [''### FILE: '' @ rel_path_str @ '' (deleted)'', []])
                      (sort (map fst (filter (\<lambda>(path, status). status = ''deleted'') d)))))"

definition combine_parts :: "fs \<Rightarrow> path \<Rightarrow> dict option \<Rightarrow> exn + string list" where
  "combine_parts f src_path allowed_files =
     (if \<not> exists f src_path then Inl FileNotFoundError
      else
        (case file_blocks f src_path allowed_files
                (sort (filter (is_file f) (rglob f src_path))) of
           Inl e \<Rightarrow> Inl e
         | Inr bs \<Rightarrow> Inr (bs @ deleted_block allowed_files)))"

definition combine_src_files :: "fs \<Rightarrow> path \<Rightarrow> path option \<Rightarrow> dict option \<Rightarrow> exn + (string \<times> fs)" where
  "combine_src_files f src_dir output_path allowed_files =
     (case combine_parts f src_dir allowed_files of
        Inl e \<Rightarrow> Inl e
      | Inr ps \<Rightarrow>
          (let combined = rstrip (intercalate [CHR 0x0A] ps) @ [CHR 0x0A]
           in (case output_path of
                 None \<Rightarrow> Inr (combined, f)
               | Some out \<Rightarrow>
                   (case write_text f out combined of
                      Inl e \<Rightarrow> Inl e
                    | Inr f' \<Rightarrow> Inr (combined, f')))))"

section \<open>The overview pipeline (diagram.py)\<close>

text \<open>
  What a run can observe and change: the file system, the log, and the background
  jobs started for the per-node diagrams. A job is recorded, not run: the thread is
  detached and the caller never waits for it.
\<close>

datatype log_entry = Info string | Warning string | Error string | Exception string exn

record node_job =
  job_schema_path :: path
  job_source_dir :: path
  job_output_dir :: path
  job_previous_run_dir :: "path option"

record world =
  files :: fs
  log :: "log_entry list"
  started :: "node_job list"

text \<open>
  A manifest file after \<^verbatim>\<open>json.loads\<close>, as far as \<^verbatim>\<open>_load_all_files\<close> looks at it:
  the payload is a dictionary or not, and its \<^verbatim>\<open>files\<close> value, when present, is a
  dictionary (of which only the keys are read) or not.
\<close>

datatype files_field = FilesAbsent | FilesNotDict | FilesDict "string list"

datatype manifest_payload = ManifestNotDict | ManifestDict files_field

text \<open>
  The collaborators of \<^verbatim>\<open>unslop/code2diagram.py\<close> (not among the source files) and
  of the standard library, as parameters: the JSON parser (\<open>None\<close> when it raises), the
  two schema requests (which may raise), and the writer of the overview diagram.
\<close>

record services =
  manifest_loads :: "string \<Rightarrow> manifest_payload option"
  generate_overview_schema :: "string \<Rightarrow> string \<Rightarrow> exn + string"
  update_overview_schema :: "string \<Rightarrow> string \<Rightarrow> string \<Rightarrow> exn + string"
  get_overview_d2_diagram :: "fs \<Rightarrow> path \<Rightarrow> path \<Rightarrow> exn + fs"

definition add_log :: "log_entry \<Rightarrow> world \<Rightarrow> world" where
  "add_log e w = w\<lparr>log := log w @ [e]\<rparr>"


definition source_dir_of :: "fs \<Rightarrow> path \<Rightarrow> path" where
  "source_dir_of f folder =
     (let src_root = joinpath folder ''src'' in if is_dir f src_root then src_root else folder)"

definition model_or_default :: "string option \<Rightarrow> string" where
  "model_or_default overview_model =
     (case overview_model of None \<Rightarrow> ''gpt-4.1'' | Some m \<Rightarrow> if m = [] then ''gpt-4.1'' else m)"

definition start_node_diagrams :: "world \<Rightarrow> path \<Rightarrow> path \<Rightarrow> path \<Rightarrow> path option \<Rightarrow> world" where
  "start_node_diagrams w schema_path source_dir output_dir previous_run_dir =
     (let w1 = add_log (Info ''Preparing per-node diagrams in background.'') w
      in w1\<lparr>started := started w1 @
               [\<lparr>job_schema_path = schema_path, job_source_dir = source_dir,
                 job_output_dir = output_dir, job_previous_run_dir = previous_run_dir\<rparr>]\<rparr>)"

text \<open>
  The common tail of both overview functions, from the answer of the schema request
  on: an exception of the request is logged and gives \<open>None\<close>; the schema is written,
  the overview diagram produced, the node job started.
\<close>

definition finish_overview ::
  "services \<Rightarrow> world \<Rightarrow> exn + string \<Rightarrow> path \<Rightarrow> path \<Rightarrow> path option \<Rightarrow> (exn + path option) \<times> world" where
  "finish_overview sv w answer source_dir output_dir previous_run_dir =
     (let schema_path = joinpath output_dir ''overview.json'';
          overview_path = joinpath output_dir ''overview.d2''
      in (case answer of
            Inl exc \<Rightarrow> (Inr None, add_log (Exception ''OpenAI request failed'' exc) w)
          | Inr overview_schema \<Rightarrow>
              (case write_text (files w) schema_path overview_schema of
                 Inl e \<Rightarrow> (Inl e, w)
               | Inr f1 \<Rightarrow>
                   (case get_overview_d2_diagram sv f1 schema_path output_dir of
                      Inl e \<Rightarrow> (Inl e, w\<lparr>files := f1\<rparr>)
                    | Inr f2 \<Rightarrow>
                        (let w2 = start_node_diagrams (w\<lparr>files := f2\<rparr>) schema_path source_dir
                                    output_dir previous_run_dir
                         in (Inr (if is_file (files w2) overview_path then Some overview_path
                                  else None), w2))))))"


definition update_overview_diagram ::
  "manifest_api \<Rightarrow> services \<Rightarrow> world \<Rightarrow> path \<Rightarrow> path \<Rightarrow> string option \<Rightarrow> (exn + path option) \<times> world" where
  "update_overview_diagram api sv w folder output_dir overview_model =
     (let source_dir = source_dir_of (files w) folder;
          combined_path = joinpath output_dir ''combined_files.txt'';
          allowed_files = load_changed_files api (files w) folder source_dir output_dir
      in if allowed_files = None \<or> allowed_files = Some []
         then (Inr None,
               add_log (Info ''No source changes detected; skipping overview update.'') w)
         else
           (case combine_src_files (files w) source_dir (Some combined_path) allowed_files of
              Inl e \<Rightarrow> (Inl e, w)
            | Inr (combined, f2) \<Rightarrow>
                (let previous_manifest = find_previous_manifest api f2 folder output_dir;
                     previous_run_dir = map_option parent previous_manifest;
                     previous_schema =
                       (case previous_manifest of
                          None \<Rightarrow> []
                        | Some pm \<Rightarrow>
                            (case read_text f2 (joinpath (parent pm) ''overview.json'') of
                               Inl e \<Rightarrow> []
                             | Inr t \<Rightarrow> t))
                 in finish_overview sv (w\<lparr>files := f2\<rparr>)
                      (update_overview_schema sv combined (model_or_default overview_model)
                         previous_schema)
                      source_dir output_dir previous_run_dir)))"

section \<open>Reusing node diagrams (diagram.py)\<close>

text \<open>
  The overview schema after \<^verbatim>\<open>json.loads\<close>, as far as
  \<^verbatim>\<open>_prepare_node_diagram_inputs\<close> looks at it. A node is a dictionary or not; of a
  dictionary the values of \<^verbatim>\<open>id\<close> and \<^verbatim>\<open>status\<close> are read. Ids are strings, as the
  result type \<^verbatim>\<open>set[str]\<close> says: \<open>None\<close> stands for an absent or null id, and for a
  status that is absent or not a string.
\<close>

datatype schema_node = NodeNotDict | NodeDict (node_id: "string option") (node_status: "string option")

datatype nodes_field = NodesAbsent | NodesNotList | NodesList "schema_node list"












section \<open>Rendering (diagram.py)\<close>





section \<open>Run directories (unslop\_dir\_management.py)\<close>

definition unlink :: "fs \<Rightarrow> path \<Rightarrow> exn + fs" where
  "unlink f p =
     (case map_of f p of
        None \<Rightarrow> Inl FileNotFoundError
      | Some Dir \<Rightarrow> Inl IsADirectoryError
      | Some (File t) \<Rightarrow> Inr (AList.delete p f))"

text \<open>\<^verbatim>\<open>Path.mkdir(exist_ok=...)\<close> with \<^verbatim>\<open>parents=False\<close>.\<close>

definition mkdir :: "fs \<Rightarrow> path \<Rightarrow> bool \<Rightarrow> exn + fs" where
  "mkdir f p exist_ok =
     (if exists f p then (if exist_ok \<and> is_dir f p then Inr f else Inl FileExistsError)
      else if is_file f (parent p) then Inl NotADirectoryError
      else if \<not> is_dir f (parent p) then Inl FileNotFoundError
      else Inr (AList.update p Dir f))"

definition iterdir :: "fs \<Rightarrow> path \<Rightarrow> path list" where
  "iterdir f d = filter (\<lambda>p. p \<noteq> [] \<and> parent p = d) (remdups (map fst f))"

text \<open>
  \<^verbatim>\<open>_RUN_DIR_RE = re.compile(r"^\d{8}T\d{6}Z-\d{4}$")\<close> under \<^verbatim>\<open>match\<close>. Each piece
  of the expression consumes a part of the string and leaves the rest; \<^verbatim>\<open>$\<close> holds at
  the end of the string and also just before a newline that ends the string.
\<close>

definition digits :: "nat \<Rightarrow> string \<Rightarrow> string option" where
  "digits n s =
     (if n \<le> length s \<and> list_all is_digit (take n s) then Some (drop n s) else None)"

definition lit :: "char \<Rightarrow> string \<Rightarrow> string option" where
  "lit c s = (case s of [] \<Rightarrow> None | x # xs \<Rightarrow> if x = c then Some xs else None)"

definition at_end :: "string \<Rightarrow> bool" where
  "at_end s = (s = [] \<or> s = [CHR 0x0A])"

definition run_dir_re_match :: "string \<Rightarrow> bool" where
  "run_dir_re_match s =
     (case Option.bind (Option.bind (Option.bind (Option.bind (Option.bind
             (digits 8 s) (lit (CHR ''T''))) (digits 6)) (lit (CHR ''Z''))) (lit (CHR ''-'')))
             (digits 4) of
        None \<Rightarrow> False
      | Some rest \<Rightarrow> at_end rest)"

text \<open>
  The pattern of the specification, \<^verbatim>\<open><8 digits>T<6 digits>Z-<4 digits>\<close>, read as a
  description of the whole name.
\<close>

definition run_id_pattern :: "string \<Rightarrow> bool" where
  "run_id_pattern s =
     (length s = 21
      \<and> list_all is_digit (take 8 s)
      \<and> s ! 8 = CHR ''T''
      \<and> list_all is_digit (take 6 (drop 9 s))
      \<and> s ! 15 = CHR ''Z''
      \<and> s ! 16 = CHR ''-''
      \<and> list_all is_digit (drop 17 s))"

definition ensure_unslop_dir :: "fs \<Rightarrow> path \<Rightarrow> exn + (path \<times> fs)" where
  "ensure_unslop_dir f root =
     (let unslop_dir = joinpath root ''.unslop''
      in (case (if exists f unslop_dir \<and> \<not> is_dir f unslop_dir then unlink f unslop_dir
                else Inr f) of
            Inl e \<Rightarrow> Inl e
          | Inr f1 \<Rightarrow>
              (case mkdir f1 unslop_dir True of
                 Inl e \<Rightarrow> Inl e
               | Inr f2 \<Rightarrow> Inr (unslop_dir, f2))))"

text \<open>
  The clock and the random number are inputs. \<^verbatim>\<open>strftime\<close> writes the year as it
  is and the other fields with two digits; \<^verbatim>\<open>:04d\<close> pads to four digits.
\<close>

record datetime =
  year :: nat
  month :: nat
  day :: nat
  hour :: nat
  minute :: nat
  second :: nat

definition zfill :: "nat \<Rightarrow> string \<Rightarrow> string" where
  "zfill w s = replicate (w - length s) (CHR ''0'') @ s"

definition strftime_run :: "datetime \<Rightarrow> string" where
  "strftime_run t =
     str_nat (year t) @ zfill 2 (str_nat (month t)) @ zfill 2 (str_nat (day t)) @ ''T''
       @ zfill 2 (str_nat (hour t)) @ zfill 2 (str_nat (minute t)) @ zfill 2 (str_nat (second t))
       @ ''Z''"

definition valid_datetime :: "datetime \<Rightarrow> bool" where
  "valid_datetime t =
     (1000 \<le> year t \<and> year t \<le> 9999 \<and> 1 \<le> month t \<and> month t \<le> 12 \<and> 1 \<le> day t \<and> day t \<le> 31
      \<and> hour t < 24 \<and> minute t < 60 \<and> second t < 60)"

definition create_run_dir :: "fs \<Rightarrow> path \<Rightarrow> datetime \<Rightarrow> nat \<Rightarrow> exn + (path \<times> fs)" where
  "create_run_dir f root now randbelow =
     (case ensure_unslop_dir f root of
        Inl e \<Rightarrow> Inl e
      | Inr (unslop_dir, f1) \<Rightarrow>
          (let timestamp = strftime_run now;
               suffix = zfill 4 (str_nat randbelow);
               run_dir = joinpath unslop_dir (timestamp @ ''-'' @ suffix)
           in (case mkdir f1 run_dir False of
                 Inl e \<Rightarrow> Inl e
               | Inr f2 \<Rightarrow> Inr (run_dir, f2))))"

definition list_run_dirs :: "fs \<Rightarrow> path \<Rightarrow> path list" where
  "list_run_dirs f root =
     (let unslop_dir = joinpath root ''.unslop''
      in if \<not> is_dir f unslop_dir then []
         else sort_key name
                (filter (\<lambda>p. is_dir f p \<and> run_dir_re_match (name p)) (iterdir f unslop_dir)))"

definition latest_run_dir :: "fs \<Rightarrow> path \<Rightarrow> path option" where
  "latest_run_dir f root =
     (let runs = list_run_dirs f root in if runs = [] then None else Some (last runs))"

section \<open>A small project\<close>

text \<open>
  A project \<^verbatim>\<open>/proj\<close> with a source directory \<^verbatim>\<open>src\<close>, one earlier run and the
  directory of the current run, each holding a manifest file; collaborators that
  answer with fixed values.
\<close>

definition ex_root :: path where
  "ex_root = [''proj'']"

definition ex_src :: path where
  "ex_src = [''proj'', ''src'']"

definition ex_prev :: path where
  "ex_prev = [''proj'', ''.unslop'', ''20240101T000000Z-0001'']"

definition ex_out :: path where
  "ex_out = [''proj'', ''.unslop'', ''20240102T000000Z-0002'']"

definition ex_fs :: fs where
  "ex_fs =
     [([], Dir), ([''proj''], Dir), ([''proj'', ''src''], Dir),
      ([''proj'', ''src'', ''new.py''], File ''x = 1''),
      ([''proj'', ''.unslop''], Dir),
      (ex_prev, Dir),
      (ex_prev @ [''manifest.json''], File ''{}''),
      (ex_prev @ [''overview.json''], File ''{}''),
      (ex_out, Dir),
      (ex_out @ [''manifest.json''], File ''{}'')]"

definition ex_world :: world where
  "ex_world = \<lparr>files = ex_fs, log = [], started = []\<rparr>"

definition ex_api :: "summary \<Rightarrow> manifest_api" where
  "ex_api sm =
     \<lparr>find_previous_manifest = (\<lambda>f root output_dir. Some (ex_prev @ [''manifest.json''])),
      read_manifest_entries = (\<lambda>f p. Some []),
      summarize = (\<lambda>previous current. sm)\<rparr>"


definition ex_services :: services where
  "ex_services =
     \<lparr>manifest_loads = (\<lambda>t. Some (ManifestDict (FilesDict [''src/new.py'', ''README.md'']))),
      generate_overview_schema = (\<lambda>combined m. Inr ''schema text''),
      update_overview_schema = (\<lambda>combined m previous_schema. Inr ''schema text''),
      get_overview_d2_diagram =
        (\<lambda>f schema_path output_dir. write_text f (joinpath output_dir ''overview.d2'') ''a -> b'')\<rparr>"



definition manifest_P0 :: entries where
  "manifest_P0 =
     [(''file.txt'', \<lparr>entry_hash = ''h1'', entry_size = 5, entry_mtime = 10\<rparr>),
      (''extra.txt'', \<lparr>entry_hash = ''h2'', entry_size = 5, entry_mtime = 10\<rparr>),
      (''same.txt'', \<lparr>entry_hash = ''h3'', entry_size = 1, entry_mtime = 10\<rparr>)]"

definition manifest_C0 :: entries where
  "manifest_C0 =
     [(''file.txt'', \<lparr>entry_hash = ''h9'', entry_size = 11, entry_mtime = 20\<rparr>),
      (''new.txt'', \<lparr>entry_hash = ''h4'', entry_size = 9, entry_mtime = 20\<rparr>),
      (''same.txt'', \<lparr>entry_hash = ''h3'', entry_size = 1, entry_mtime = 99\<rparr>)]"

definition manifest_C1 :: entries where
  "manifest_C1 =
     [(''file.txt'', \<lparr>entry_hash = ''h9'', entry_size = 0, entry_mtime = 0\<rparr>),
      (''new.txt'', \<lparr>entry_hash = ''h4'', entry_size = 0, entry_mtime = 0\<rparr>),
      (''same.txt'', \<lparr>entry_hash = ''h3'', entry_size = 0, entry_mtime = 0\<rparr>)]"



definition moved_into_src :: summary where
  "moved_into_src =
     \<lparr>added = [''src/gone.py''], modified = [], deleted = [''gone.py'', ''src/old.py'']\<rparr>"

definition changed_under_src :: summary where
  "changed_under_src =
     \<lparr>added = [''src/new.py''], modified = [''README.md''], deleted = [''src/old.py'']\<rparr>"

definition only_deleted_under_src :: summary where
  "only_deleted_under_src = \<lparr>added = [], modified = [], deleted = [''src/old.py'']\<rparr>"

text \<open>
  A state directory with a directory whose name is a run id followed by a newline,
  and a project whose state path is taken by a legacy marker file.
\<close>

definition ex_fs_newline :: fs where
  "ex_fs_newline =
     [([], Dir), ([''proj''], Dir), ([''proj'', ''.unslop''], Dir),
      ([''proj'', ''.unslop'', ''20240101T000000Z-0001''], Dir),
      ([''proj'', ''.unslop'', ''20240101T000000Z-0001'' @ [CHR 0x0A]], Dir),
      ([''proj'', ''.unslop'', ''notes''], Dir)]"

definition ex_fs_marker :: fs where
  "ex_fs_marker =
     [([], Dir), ([''proj''], Dir), ([''proj'', ''.unslop''], File ''legacy marker''),
      ([''proj'', ''file.txt''], File ''content'')]"

definition ex_now :: datetime where
  "ex_now = \<lparr>year = 2024, month = 3, day = 9, hour = 0, minute = 5, second = 59\<rparr>"

text \<open>Every entry of the file system but the root lies in a directory.\<close>

definition wf_fs :: "fs \<Rightarrow> bool" where
  "wf_fs f = list_all (\<lambda>p. p = [] \<or> is_dir f (parent p)) (map fst f)"








section \<open>The change summary\<close>

lemma set_keys: "set (keys m) = dom (map_of m)"
  by (simp add: keys_def dom_map_of_conv_image_fst)

lemma keys_hashes: "hashes p = hashes p' \<Longrightarrow> keys p = keys p'"
proof -
  assume "hashes p = hashes p'"
  then have "map fst (hashes p) = map fst (hashes p')" by simp
  then show ?thesis by (simp add: hashes_def keys_def case_prod_unfold comp_def)
qed

lemma map_of_hashes: "map_of (hashes m) k = map_option entry_hash (map_of m k)"
  by (induction m) (auto simp: hashes_def)

lemma hash_differs_hashes:
  assumes "hashes p = hashes p'" and "hashes c = hashes c'"
  shows "hash_differs p c k = hash_differs p' c' k"
proof -
  have "map_option entry_hash (map_of p k) = map_option entry_hash (map_of p' k)"
    using assms(1) map_of_hashes by metis
  moreover have "map_option entry_hash (map_of c k) = map_option entry_hash (map_of c' k)"
    using assms(2) map_of_hashes by metis
  ultimately show ?thesis
    by (auto simp: hash_differs_def split: option.splits)
qed

lemma map_of_None_hashes:
  assumes "hashes p = hashes p'"
  shows "(map_of p k = None) = (map_of p' k = None)"
proof -
  have "map_option entry_hash (map_of p k) = map_option entry_hash (map_of p' k)"
    using assms map_of_hashes by metis
  then show ?thesis by (cases "map_of p k"; cases "map_of p' k") auto
qed

text \<open>
  C3. For every pair of manifests, \<open>added\<close> is the keys of the current manifest without
  those of the previous one, \<open>deleted\<close> the keys of the previous one without those of the
  current one, and a key of both is \<open>modified\<close> iff the two content hashes differ. The
  three lists are pairwise disjoint, a key of both with equal hashes is in none of them,
  and two pairs of manifests that agree on keys and hashes (whatever their sizes and
  modification times) have the same summary.
\<close>

theorem summarize_changes_diff:
  "set (added (summarize_changes P C)) = dom (map_of C) - dom (map_of P)
   \<and> set (deleted (summarize_changes P C)) = dom (map_of P) - dom (map_of C)
   \<and> set (modified (summarize_changes P C)) =
       {k. \<exists>p c. map_of P k = Some p \<and> map_of C k = Some c \<and> entry_hash p \<noteq> entry_hash c}
   \<and> set (added (summarize_changes P C)) \<inter> set (modified (summarize_changes P C)) = {}
   \<and> set (added (summarize_changes P C)) \<inter> set (deleted (summarize_changes P C)) = {}
   \<and> set (modified (summarize_changes P C)) \<inter> set (deleted (summarize_changes P C)) = {}
   \<and> (\<forall>k p c. map_of P k = Some p \<and> map_of C k = Some c \<and> entry_hash p = entry_hash c \<longrightarrow>
         k \<notin> set (added (summarize_changes P C)) \<union> set (modified (summarize_changes P C))
               \<union> set (deleted (summarize_changes P C)))
   \<and> (\<forall>P' C'. hashes P' = hashes P \<and> hashes C' = hashes C \<longrightarrow>
         summarize_changes P' C' = summarize_changes P C)"
proof -
  have a: "set (added (summarize_changes P C)) = dom (map_of C) - dom (map_of P)"
    by (auto simp: summarize_changes_def set_keys)
  have d: "set (deleted (summarize_changes P C)) = dom (map_of P) - dom (map_of C)"
    by (auto simp: summarize_changes_def set_keys)
  have m: "set (modified (summarize_changes P C)) =
      {k. \<exists>p c. map_of P k = Some p \<and> map_of C k = Some c \<and> entry_hash p \<noteq> entry_hash c}"
    by (auto simp: summarize_changes_def set_keys hash_differs_def split: option.splits)
  have h: "summarize_changes P' C' = summarize_changes P C"
    if "hashes P' = hashes P" and "hashes C' = hashes C" for P' C'
  proof -
    have "keys P' = keys P"
      by (rule keys_hashes [OF that(1)])
    moreover have "keys C' = keys C"
      by (rule keys_hashes [OF that(2)])
    moreover have "hash_differs P' C' = hash_differs P C"
      by (rule ext) (rule hash_differs_hashes [OF that])
    moreover have "(\<lambda>k. map_of P' k = None) = (\<lambda>k. map_of P k = None)"
      by (rule ext) (rule map_of_None_hashes [OF that(1)])
    moreover have "(\<lambda>k. map_of C' k = None) = (\<lambda>k. map_of C k = None)"
      by (rule ext) (rule map_of_None_hashes [OF that(2)])
    ultimately show ?thesis by (simp add: summarize_changes_def)
  qed
  have am: "set (added (summarize_changes P C)) \<inter> set (modified (summarize_changes P C)) = {}"
    unfolding a m by auto
  have ad: "set (added (summarize_changes P C)) \<inter> set (deleted (summarize_changes P C)) = {}"
    unfolding a d by auto
  have md: "set (modified (summarize_changes P C)) \<inter> set (deleted (summarize_changes P C)) = {}"
    unfolding m d by auto
  have u: "k \<notin> set (added (summarize_changes P C)) \<union> set (modified (summarize_changes P C))
               \<union> set (deleted (summarize_changes P C))"
    if "map_of P k = Some p \<and> map_of C k = Some c \<and> entry_hash p = entry_hash c" for k p c
    unfolding a d m using that by auto
  show ?thesis
    apply (intro conjI allI impI)
    subgoal by (rule a)
    subgoal by (rule d)
    subgoal by (rule m)
    subgoal by (rule am)
    subgoal by (rule ad)
    subgoal by (rule md)
    subgoal for k p c by (rule u)
    subgoal for P' C' by (rule h) simp_all
    done
qed

theorem summarize_changes_diff_witness:
  "summarize_changes manifest_P0 manifest_C0 =
     \<lparr>added = [''new.txt''], modified = [''file.txt''], deleted = [''extra.txt'']\<rparr>
   \<and> ''same.txt'' \<notin> set (added (summarize_changes manifest_P0 manifest_C0))
        \<union> set (modified (summarize_changes manifest_P0 manifest_C0))
        \<union> set (deleted (summarize_changes manifest_P0 manifest_C0))
   \<and> summarize_changes manifest_P0 manifest_C1 = summarize_changes manifest_P0 manifest_C0"
proof -
  note t = summarize_changes_diff [of manifest_P0 manifest_C0]
  have e: "summarize_changes manifest_P0 manifest_C0 =
     \<lparr>added = [''new.txt''], modified = [''file.txt''], deleted = [''extra.txt'']\<rparr>"
    by (simp add: summarize_changes_def manifest_P0_def manifest_C0_def keys_def
        hash_differs_def)
  have s: "map_of manifest_P0 ''same.txt''
        = Some \<lparr>entry_hash = ''h3'', entry_size = 1, entry_mtime = 10\<rparr>
      \<and> map_of manifest_C0 ''same.txt''
        = Some \<lparr>entry_hash = ''h3'', entry_size = 1, entry_mtime = 99\<rparr>"
    by (simp add: manifest_P0_def manifest_C0_def)
  have u: "''same.txt'' \<notin> set (added (summarize_changes manifest_P0 manifest_C0))
        \<union> set (modified (summarize_changes manifest_P0 manifest_C0))
        \<union> set (deleted (summarize_changes manifest_P0 manifest_C0))"
  proof -
    from t have "\<forall>k p c. map_of manifest_P0 k = Some p \<and> map_of manifest_C0 k = Some c
          \<and> entry_hash p = entry_hash c \<longrightarrow>
        k \<notin> set (added (summarize_changes manifest_P0 manifest_C0))
          \<union> set (modified (summarize_changes manifest_P0 manifest_C0))
          \<union> set (deleted (summarize_changes manifest_P0 manifest_C0))"
      by (elim conjE)
    then show ?thesis using s by fastforce
  qed
  have hh: "hashes manifest_P0 = hashes manifest_P0 \<and> hashes manifest_C1 = hashes manifest_C0"
    by (simp add: hashes_def manifest_C0_def manifest_C1_def)
  have i: "summarize_changes manifest_P0 manifest_C1 = summarize_changes manifest_P0 manifest_C0"
  proof -
    from t have "\<forall>P' C'. hashes P' = hashes manifest_P0 \<and> hashes C' = hashes manifest_C0 \<longrightarrow>
         summarize_changes P' C' = summarize_changes manifest_P0 manifest_C0"
      by (elim conjE)
    then show ?thesis using hh by blast
  qed
  show ?thesis using e u i by simp
qed


section \<open>Selecting the changed files: properties\<close>








lemma classify_path_deleted_root:
  assumes "p \<in> set (deleted sm)" and "p \<noteq> []"
  shows "map_of (classify_path sm f sd [] q acc) p =
         (if q = p then Some ''deleted'' else map_of acc p)"
  using assms by (auto simp: classify_path_def Let_def update_conv')

lemma fold_classify_path_deleted_root:
  assumes "p \<in> set (deleted sm)" and "p \<noteq> []"
  shows "map_of (fold (classify_path sm f sd []) ps acc) p =
         (if p \<in> set ps then Some ''deleted'' else map_of acc p)"
proof (induction ps arbitrary: acc)
  case Nil
  show ?case by simp
next
  case (Cons q ps)
  show ?case
    by (simp add: Cons.IH classify_path_deleted_root [OF assms])
qed


















text \<open>
  \<^verbatim>\<open>combine_src_files\<close> writes a header for every path of status deleted. With no
  prefix (the source directory is the root) \<^verbatim>\<open>_load_changed_files\<close> keeps a deleted
  path as deleted whether or not a file is there (\<open>fold_classify_path_deleted_root\<close>),
  and keeps any other path only when its file exists.
\<close>

lemma deleted_block_header:
  assumes "(p, ''deleted'') \<in> set d"
  shows "(''### FILE: '' @ p @ '' (deleted)'') \<in> set (deleted_block (Some d))"
proof -
  from assms have ne: "d \<noteq> []" by auto
  from assms have "p \<in> set (sort (map fst (filter (\<lambda>(path, status). status = ''deleted'') d)))"
    by force
  then show ?thesis
    using ne by (auto simp: deleted_block_def)
qed

lemma classify_path_live_root:
  assumes "p \<notin> set (deleted sm)"
  shows "map_of (classify_path sm f sd [] q acc) p \<noteq> None \<Longrightarrow>
         map_of acc p \<noteq> None \<or> is_file f (joinpath sd p)"
  using assms
  by (auto simp: classify_path_def Let_def update_conv' split: if_splits)

lemma fold_classify_path_live_root:
  assumes "p \<notin> set (deleted sm)"
  shows "map_of (fold (classify_path sm f sd []) ps acc) p \<noteq> None \<Longrightarrow>
         map_of acc p \<noteq> None \<or> is_file f (joinpath sd p)"
proof (induction ps arbitrary: acc)
  case Nil
  then show ?case by simp
next
  case (Cons q ps)
  from Cons.prems have "map_of (fold (classify_path sm f sd []) ps
      (classify_path sm f sd [] q acc)) p \<noteq> None" by simp
  from Cons.IH [OF this] show ?case
    using classify_path_live_root [OF assms] by blast
qed

text \<open>
  C6 at a failing input. The project has the source directory \<^verbatim>\<open>src\<close> and the change
  set says that \<^verbatim>\<open>src/old.py\<close> was deleted. The rebased path \<^verbatim>\<open>old.py\<close> is looked up
  in the list of deleted paths, which holds \<^verbatim>\<open>src/old.py\<close>, so it is not taken for a
  deleted path, fails the test for an existing file and is dropped: the mapping is
  empty and the update is skipped; next to an added file the mapping has no entry for
  it, and the combined text gets no header for a deleted file.
\<close>

theorem deleted_under_source_prefix_dropped:
  "source_dir_of ex_fs ex_root = ex_src
   \<and> load_changed_files (ex_api only_deleted_under_src) ex_fs ex_root ex_src ex_out = Some []
   \<and> update_overview_diagram (ex_api only_deleted_under_src) ex_services ex_world ex_root ex_out None =
       (Inr None,
        ex_world\<lparr>log := [Info ''No source changes detected; skipping overview update.'']\<rparr>)
   \<and> load_changed_files (ex_api changed_under_src) ex_fs ex_root ex_src ex_out
       = Some [(''new.py'', ''updated'')]
   \<and> map_option (\<lambda>d. deleted_block (Some d))
        (load_changed_files (ex_api changed_under_src) ex_fs ex_root ex_src ex_out) = Some []"
  by code_simp

text \<open>
  C10 at a failing input. Under the source directory \<^verbatim>\<open>src\<close> the deleted path
  \<^verbatim>\<open>src/old.py\<close> goes through the test for an existing file and is dropped, and the
  added path \<^verbatim>\<open>src/gone.py\<close>, whose file is missing, is kept (as deleted) because the
  rebased \<^verbatim>\<open>gone.py\<close> is in the list of deleted paths.
\<close>

theorem existence_check_under_source_prefix:
  "''src/gone.py'' \<in> set (added moved_into_src)
   \<and> ''src/old.py'' \<in> set (deleted moved_into_src)
   \<and> \<not> is_file ex_fs (joinpath ex_src ''gone.py'')
   \<and> load_changed_files (ex_api moved_into_src) ex_fs ex_root ex_src ex_out
       = Some [(''gone.py'', ''deleted'')]"
  by code_simp

section \<open>Run directories: properties\<close>

lemma is_digit_digit_char: "d < 10 \<Longrightarrow> is_digit (digit_char d)"
proof -
  assume "d < 10"
  then have "d \<in> {0, 1, 2, 3, 4, 5, 6, 7, 8, 9}" by auto
  then show ?thesis
    by (auto simp: is_digit_def digit_char_def)
qed

lemma str_nat_digits: "list_all is_digit (str_nat n)"
proof (induction n rule: str_nat.induct)
  case (1 n)
  show ?case
  proof (cases "n < 10")
    case True
    then show ?thesis by (simp add: str_nat.simps [of n] is_digit_digit_char)
  next
    case False
    with 1 show ?thesis
      by (simp add: str_nat.simps [of n] is_digit_digit_char)
  qed
qed

lemma length_str_nat_1: "n < 10 \<Longrightarrow> length (str_nat n) = 1"
  by (simp add: str_nat.simps [of n])

lemma length_str_nat_2: "10 \<le> n \<Longrightarrow> n < 100 \<Longrightarrow> length (str_nat n) = 2"
  by (simp add: str_nat.simps [of n] length_str_nat_1)

lemma length_str_nat_3: "100 \<le> n \<Longrightarrow> n < 1000 \<Longrightarrow> length (str_nat n) = 3"
  by (simp add: str_nat.simps [of n] length_str_nat_2)

lemma length_str_nat_4: "1000 \<le> n \<Longrightarrow> n < 10000 \<Longrightarrow> length (str_nat n) = 4"
  by (simp add: str_nat.simps [of n] length_str_nat_3)

lemma length_zfill_2: "n < 100 \<Longrightarrow> length (zfill 2 (str_nat n)) = 2"
proof -
  assume "n < 100"
  then consider "n < 10" | "10 \<le> n" "n < 100" by linarith
  then show ?thesis
    by cases (simp_all add: zfill_def length_str_nat_1 length_str_nat_2)
qed

lemma length_zfill_4: "n < 10000 \<Longrightarrow> length (zfill 4 (str_nat n)) = 4"
proof -
  assume "n < 10000"
  then consider "n < 10" | "10 \<le> n" "n < 100" | "100 \<le> n" "n < 1000" | "1000 \<le> n" "n < 10000"
    by linarith
  then show ?thesis
    by cases (simp_all add: zfill_def length_str_nat_1 length_str_nat_2 length_str_nat_3
        length_str_nat_4)
qed

lemma list_all_replicate: "P c \<Longrightarrow> list_all P (replicate n c)"
  by (induction n) simp_all

lemma zfill_digits: "list_all is_digit (zfill w (str_nat n))"
proof -
  have "is_digit (CHR ''0'')" by (simp add: is_digit_def)
  then show ?thesis
    by (simp add: zfill_def str_nat_digits list_all_replicate)
qed

lemma run_id_pattern_append:
  assumes "length a = 8" "length b = 6" "length c = 4"
    and "list_all is_digit a" "list_all is_digit b" "list_all is_digit c"
  shows "run_id_pattern (a @ ''T'' @ b @ ''Z-'' @ c)"
  using assms by (simp add: run_id_pattern_def nth_append)

lemma digits_append:
  "length a = n \<Longrightarrow> list_all is_digit a \<Longrightarrow> digits n (a @ r) = Some r"
  by (simp add: digits_def)

lemma run_dir_re_match_append:
  assumes "length a = 8" "length b = 6" "length c = 4"
    and "list_all is_digit a" "list_all is_digit b" "list_all is_digit c"
    and "at_end r"
  shows "run_dir_re_match (a @ ''T'' @ b @ ''Z-'' @ c @ r)"
  using assms by (simp add: run_dir_re_match_def digits_append lit_def)

lemma splitc_no_sep: "c \<notin> set s \<Longrightarrow> splitc c s = [s]"
  by (induction s) auto

lemma joinpath_single:
  assumes "CHR ''/'' \<notin> set s" and "s \<noteq> []" and "s \<noteq> ''.''"
  shows "joinpath p s = p @ [s]"
proof -
  from assms(1,2) have "hd s \<noteq> CHR ''/''" by (cases s) auto
  then show ?thesis
    using assms by (simp add: joinpath_def parts_def splitc_no_sep)
qed

lemma joinpath_unslop: "joinpath root ''.unslop'' = root @ [''.unslop'']"
  by (rule joinpath_single) simp_all

lemma is_digit_not_slash: "list_all is_digit a \<Longrightarrow> CHR ''/'' \<notin> set a"
  by (auto simp: list_all_iff is_digit_def)

lemma strftime_run_shape:
  assumes "valid_datetime t"
  shows "\<exists>a b. strftime_run t = a @ ''T'' @ b @ ''Z'' \<and> length a = 8 \<and> length b = 6
           \<and> list_all is_digit a \<and> list_all is_digit b"
proof -
  let ?a = "str_nat (year t) @ zfill 2 (str_nat (month t)) @ zfill 2 (str_nat (day t))"
  let ?b = "zfill 2 (str_nat (hour t)) @ zfill 2 (str_nat (minute t)) @ zfill 2 (str_nat (second t))"
  from assms have y: "length (str_nat (year t)) = 4"
    by (simp add: valid_datetime_def length_str_nat_4)
  from assms have "length ?a = 8"
    by (simp add: valid_datetime_def y length_zfill_2)
  moreover from assms have "length ?b = 6"
    by (simp add: valid_datetime_def length_zfill_2)
  moreover have "list_all is_digit ?a" "list_all is_digit ?b"
    by (simp_all add: str_nat_digits zfill_digits)
  moreover have "strftime_run t = ?a @ ''T'' @ ?b @ ''Z''"
    by (simp add: strftime_run_def)
  ultimately show ?thesis by blast
qed

lemma run_name_shape:
  assumes "valid_datetime t" and "r < 10000"
  shows "\<exists>a b c. strftime_run t @ ''-'' @ zfill 4 (str_nat r) = a @ ''T'' @ b @ ''Z-'' @ c
           \<and> length a = 8 \<and> length b = 6 \<and> length c = 4
           \<and> list_all is_digit a \<and> list_all is_digit b \<and> list_all is_digit c"
proof -
  from strftime_run_shape [OF assms(1)] obtain a b where
    ab: "strftime_run t = a @ ''T'' @ b @ ''Z''" "length a = 8" "length b = 6"
        "list_all is_digit a" "list_all is_digit b"
    by blast
  have "strftime_run t @ ''-'' @ zfill 4 (str_nat r) = a @ ''T'' @ b @ ''Z-'' @ zfill 4 (str_nat r)"
    by (simp add: ab(1))
  moreover have "length (zfill 4 (str_nat r)) = 4"
    by (rule length_zfill_4 [OF assms(2)])
  moreover have "list_all is_digit (zfill 4 (str_nat r))"
    by (rule zfill_digits)
  ultimately show ?thesis using ab by blast
qed

lemma shape_no_slash:
  assumes "list_all is_digit a" "list_all is_digit b" "list_all is_digit c"
  shows "CHR ''/'' \<notin> set (a @ ''T'' @ b @ ''Z-'' @ c)"
  using assms by (auto dest: is_digit_not_slash)

lemma mkdir_is_dir: "mkdir f p ok = Inr f' \<Longrightarrow> is_dir f' p"
  by (auto simp: mkdir_def is_dir_def update_conv' split: if_splits)

lemma create_run_dir_name:
  assumes c: "create_run_dir f root now r = Inr (run_dir, f')"
    and v: "valid_datetime now" and r: "r < 10000"
  shows "run_id_pattern (name run_dir) \<and> run_dir_re_match (name run_dir)
       \<and> parent run_dir = joinpath root ''.unslop'' \<and> is_dir f' run_dir"
proof -
  let ?s = "strftime_run now @ ''-'' @ zfill 4 (str_nat r)"
  from run_name_shape [OF v r] obtain a b c where
    s: "?s = a @ ''T'' @ b @ ''Z-'' @ c" and
    l: "length a = 8" "length b = 6" "length c = 4" and
    d: "list_all is_digit a" "list_all is_digit b" "list_all is_digit c"
    by blast
  have ns: "CHR ''/'' \<notin> set ?s"
    unfolding s by (rule shape_no_slash [OF d])
  have n0: "?s \<noteq> []" "?s \<noteq> ''.''"
    unfolding s using l by auto
  from c obtain u f1 where
    e: "ensure_unslop_dir f root = Inr (u, f1)" and
    m: "mkdir f1 (joinpath u ?s) False = Inr f'" and
    rd: "run_dir = joinpath u ?s"
    by (auto simp: create_run_dir_def Let_def split: sum.splits)
  from e have u: "u = joinpath root ''.unslop''"
    by (auto simp: ensure_unslop_dir_def Let_def split: sum.splits)
  have j: "run_dir = u @ [?s]"
    unfolding rd by (rule joinpath_single [OF ns n0])
  have p: "run_id_pattern ?s"
    unfolding s by (rule run_id_pattern_append [OF l d])
  have "run_dir_re_match (a @ ''T'' @ b @ ''Z-'' @ c @ [])"
    by (rule run_dir_re_match_append [OF l d]) (simp add: at_end_def)
  then have q: "run_dir_re_match ?s"
    unfolding s by simp
  from m have "is_dir f' run_dir"
    unfolding rd by (rule mkdir_is_dir)
  with p q j u show ?thesis
    by (simp add: name_def parent_def)
qed

lemma in_iterdir:
  "p \<in> set (iterdir f d) \<longleftrightarrow> p \<in> fst ` set f \<and> p \<noteq> [] \<and> parent p = d"
  by (auto simp: iterdir_def)

lemma is_dir_in_keys: "is_dir f p \<Longrightarrow> p \<in> fst ` set f"
  by (auto simp: is_dir_def dest: map_of_SomeD intro: rev_image_eqI)

lemma in_list_run_dirs:
  "p \<in> set (list_run_dirs f root) \<longleftrightarrow>
     is_dir f (joinpath root ''.unslop'') \<and> p \<noteq> [] \<and> parent p = joinpath root ''.unslop''
     \<and> is_dir f p \<and> run_dir_re_match (name p)"
  by (auto simp: list_run_dirs_def Let_def in_iterdir is_dir_in_keys)

lemma sorted_list_run_dirs: "sorted (map name (list_run_dirs f root))"
  by (simp add: list_run_dirs_def Let_def)

lemma distinct_list_run_dirs: "distinct (list_run_dirs f root)"
  by (simp add: list_run_dirs_def Let_def iterdir_def)

lemma latest_run_dir_last:
  "latest_run_dir f root =
     (if list_run_dirs f root = [] then None else Some (last (list_run_dirs f root)))"
  by (simp add: latest_run_dir_def Let_def)

lemma digits_Some:
  "digits n s = Some r \<longleftrightarrow> (\<exists>a. s = a @ r \<and> length a = n \<and> list_all is_digit a)"
proof
  assume "digits n s = Some r"
  then have "n \<le> length s" "list_all is_digit (take n s)" "r = drop n s"
    by (auto simp: digits_def split: if_splits)
  then have "s = take n s @ r \<and> length (take n s) = n \<and> list_all is_digit (take n s)"
    by simp
  then show "\<exists>a. s = a @ r \<and> length a = n \<and> list_all is_digit a" by blast
next
  assume "\<exists>a. s = a @ r \<and> length a = n \<and> list_all is_digit a"
  then show "digits n s = Some r" by (auto simp: digits_append)
qed

lemma lit_Some: "lit c s = Some r \<longleftrightarrow> s = c # r"
  by (auto simp: lit_def split: list.splits)

lemma run_dir_re_match_iff:
  "run_dir_re_match s \<longleftrightarrow>
     (\<exists>a b c r. s = a @ ''T'' @ b @ ''Z-'' @ c @ r \<and> length a = 8 \<and> length b = 6 \<and> length c = 4
        \<and> list_all is_digit a \<and> list_all is_digit b \<and> list_all is_digit c \<and> at_end r)"
proof
  assume "run_dir_re_match s"
  then obtain r1 r2 r3 r4 r5 r where
    "digits 8 s = Some r1" "lit (CHR ''T'') r1 = Some r2" "digits 6 r2 = Some r3"
    "lit (CHR ''Z'') r3 = Some r4" "lit (CHR ''-'') r4 = Some r5" "digits 4 r5 = Some r"
    "at_end r"
    by (auto simp: run_dir_re_match_def bind_eq_Some_conv split: option.splits)
  then show "\<exists>a b c r. s = a @ ''T'' @ b @ ''Z-'' @ c @ r \<and> length a = 8 \<and> length b = 6
      \<and> length c = 4 \<and> list_all is_digit a \<and> list_all is_digit b \<and> list_all is_digit c \<and> at_end r"
    unfolding digits_Some lit_Some by auto
next
  assume "\<exists>a b c r. s = a @ ''T'' @ b @ ''Z-'' @ c @ r \<and> length a = 8 \<and> length b = 6
      \<and> length c = 4 \<and> list_all is_digit a \<and> list_all is_digit b \<and> list_all is_digit c \<and> at_end r"
  then show "run_dir_re_match s"
    using run_dir_re_match_append by blast
qed

lemma run_id_pattern_iff:
  "run_id_pattern s \<longleftrightarrow>
     (\<exists>a b c. s = a @ ''T'' @ b @ ''Z-'' @ c \<and> length a = 8 \<and> length b = 6 \<and> length c = 4
        \<and> list_all is_digit a \<and> list_all is_digit b \<and> list_all is_digit c)"
proof
  assume p: "run_id_pattern s"
  then have len: "length s = 21" by (simp add: run_id_pattern_def)
  have 1: "s = take 8 s @ drop 8 s" by simp
  have 2: "drop 8 s = s ! 8 # drop 9 s"
    using len Cons_nth_drop_Suc [of 8 s] by simp
  have 3: "drop 9 s = take 6 (drop 9 s) @ drop 15 s"
    using append_take_drop_id [of 6 "drop 9 s"] by simp
  have 4: "drop 15 s = s ! 15 # drop 16 s"
    using len Cons_nth_drop_Suc [of 15 s] by simp
  have 5: "drop 16 s = s ! 16 # drop 17 s"
    using len Cons_nth_drop_Suc [of 16 s] by simp
  from p have c: "s ! 8 = CHR ''T''" "s ! 15 = CHR ''Z''" "s ! 16 = CHR ''-''"
    by (simp_all add: run_id_pattern_def)
  have "s = take 8 s @ ''T'' @ take 6 (drop 9 s) @ ''Z-'' @ drop 17 s"
    using 1 2 3 4 5 c by (metis append_Cons append_Nil)
  moreover from p len have "length (take 8 s) = 8" "length (take 6 (drop 9 s)) = 6"
    "length (drop 17 s) = 4" "list_all is_digit (take 8 s)"
    "list_all is_digit (take 6 (drop 9 s))" "list_all is_digit (drop 17 s)"
    by (simp_all add: run_id_pattern_def)
  ultimately show "\<exists>a b c. s = a @ ''T'' @ b @ ''Z-'' @ c \<and> length a = 8 \<and> length b = 6
      \<and> length c = 4 \<and> list_all is_digit a \<and> list_all is_digit b \<and> list_all is_digit c"
    by blast
next
  assume "\<exists>a b c. s = a @ ''T'' @ b @ ''Z-'' @ c \<and> length a = 8 \<and> length b = 6
      \<and> length c = 4 \<and> list_all is_digit a \<and> list_all is_digit b \<and> list_all is_digit c"
  then show "run_id_pattern s"
    using run_id_pattern_append by blast
qed

lemma run_dir_re_match_pattern:
  "run_dir_re_match s \<longleftrightarrow>
     run_id_pattern s \<or> (\<exists>s'. s = s' @ [CHR 0x0A] \<and> run_id_pattern s')"
proof
  assume "run_dir_re_match s"
  then obtain a b c r where
    s: "s = a @ ''T'' @ b @ ''Z-'' @ c @ r" and
    l: "length a = 8" "length b = 6" "length c = 4" and
    d: "list_all is_digit a" "list_all is_digit b" "list_all is_digit c" and
    r: "at_end r"
    unfolding run_dir_re_match_iff by blast
  have p: "run_id_pattern (a @ ''T'' @ b @ ''Z-'' @ c)"
    by (rule run_id_pattern_append [OF l d])
  from r consider "r = []" | "r = [CHR 0x0A]" by (auto simp: at_end_def)
  then show "run_id_pattern s \<or> (\<exists>s'. s = s' @ [CHR 0x0A] \<and> run_id_pattern s')"
  proof cases
    case 1
    with p s show ?thesis by simp
  next
    case 2
    with s have "s = (a @ ''T'' @ b @ ''Z-'' @ c) @ [CHR 0x0A]" by simp
    with p show ?thesis by blast
  qed
next
  assume "run_id_pattern s \<or> (\<exists>s'. s = s' @ [CHR 0x0A] \<and> run_id_pattern s')"
  then show "run_dir_re_match s"
  proof
    assume "run_id_pattern s"
    then obtain a b c where
      "s = a @ ''T'' @ b @ ''Z-'' @ c @ []" "length a = 8" "length b = 6" "length c = 4"
      "list_all is_digit a" "list_all is_digit b" "list_all is_digit c"
      unfolding run_id_pattern_iff by auto
    then show ?thesis
      using run_dir_re_match_append [of a b c "[]"] by (simp add: at_end_def)
  next
    assume "\<exists>s'. s = s' @ [CHR 0x0A] \<and> run_id_pattern s'"
    then obtain a b c where
      "s = a @ ''T'' @ b @ ''Z-'' @ c @ [CHR 0x0A]" "length a = 8" "length b = 6" "length c = 4"
      "list_all is_digit a" "list_all is_digit b" "list_all is_digit c"
      unfolding run_id_pattern_iff by auto
    then show ?thesis
      using run_dir_re_match_append [of a b c "[CHR 0x0A]"] by (simp add: at_end_def)
  qed
qed

text \<open>
  C7 at a failing input. The state directory holds a run directory and a directory
  whose name is the same run id followed by a newline. \<^verbatim>\<open>$\<close> also matches just
  before a newline that ends the string, so \<^verbatim>\<open>_RUN_DIR_RE.match\<close> accepts the second
  name, which is not of the form \<^verbatim>\<open><8 digits>T<6 digits>Z-<4 digits>\<close>:
  \<^verbatim>\<open>list_run_dirs\<close> returns both directories and \<^verbatim>\<open>latest_run_dir\<close> the second.
\<close>

theorem run_dir_with_trailing_newline_listed:
  "list_run_dirs ex_fs_newline ex_root =
     [[''proj'', ''.unslop'', ''20240101T000000Z-0001''],
      [''proj'', ''.unslop'', ''20240101T000000Z-0001'' @ [CHR 0x0A]]]
   \<and> \<not> run_id_pattern (''20240101T000000Z-0001'' @ [CHR 0x0A])
   \<and> latest_run_dir ex_fs_newline ex_root =
       Some [''proj'', ''.unslop'', ''20240101T000000Z-0001'' @ [CHR 0x0A]]"
  by code_simp

lemma create_run_dir_example:
  "create_run_dir ex_fs_marker ex_root ex_now 42 =
     Inr ([''proj'', ''.unslop'', ''20240309T000559Z-0042''],
          [([], Dir), ([''proj''], Dir), ([''proj'', ''file.txt''], File ''content''),
           ([''proj'', ''.unslop''], Dir),
           ([''proj'', ''.unslop'', ''20240309T000559Z-0042''], Dir)])"
  by code_simp

lemma wf_fs_parent:
  assumes "wf_fs f" and "map_of f p = Some n" and "p \<noteq> []"
  shows "is_dir f (parent p)"
proof -
  from assms(2) have "p \<in> set (map fst f)"
    by (metis map_of_SomeD image_eqI fst_conv set_map)
  with assms(1,3) show ?thesis
    by (auto simp: wf_fs_def list_all_iff)
qed

lemma below_file_absent:
  assumes "wf_fs f" and "is_file f p"
  shows "map_of f (p @ [x]) = None" and "map_of f (p @ [x, y]) = None"
proof -
  from assms(2) have nd: "\<not> is_dir f p"
    by (auto simp: is_file_def is_dir_def split: option.splits node.splits)
  show 1: "map_of f (p @ [x]) = None"
  proof (rule ccontr)
    assume "map_of f (p @ [x]) \<noteq> None"
    then obtain n where "map_of f (p @ [x]) = Some n" by auto
    from wf_fs_parent [OF assms(1) this] nd show False by (simp add: parent_def)
  qed
  show "map_of f (p @ [x, y]) = None"
  proof (rule ccontr)
    assume "map_of f (p @ [x, y]) \<noteq> None"
    then obtain n where "map_of f (p @ [x, y]) = Some n" by auto
    from wf_fs_parent [OF assms(1) this] have "is_dir f (butlast (p @ [x, y]))"
      by (simp add: parent_def)
    then have "is_dir f (p @ [x])" by (simp add: butlast_append)
    with 1 show False by (simp add: is_dir_def)
  qed
qed

lemma ensure_unslop_dir_marker:
  assumes "is_dir f root" and "is_file f (root @ [''.unslop''])"
  shows "ensure_unslop_dir f root =
     Inr (root @ [''.unslop''],
          AList.update (root @ [''.unslop'']) Dir (AList.delete (root @ [''.unslop'']) f))"
proof -
  let ?p = "root @ [''.unslop'']"
  from assms(2) obtain t where t: "map_of f ?p = Some (File t)"
    by (auto simp: is_file_def split: option.splits node.splits)
  from assms(1) have r: "map_of f root = Some Dir" by (simp add: is_dir_def)
  have u: "unlink f ?p = Inr (AList.delete ?p f)"
    by (simp add: unlink_def t)
  have m: "mkdir (AList.delete ?p f) ?p True = Inr (AList.update ?p Dir (AList.delete ?p f))"
    by (simp add: mkdir_def exists_def is_dir_def is_file_def delete_conv' parent_def r)
  show ?thesis
    by (simp add: ensure_unslop_dir_def Let_def joinpath_unslop exists_def is_dir_def t u m)
qed

lemma joinpath_manifest_json: "joinpath p ''manifest.json'' = p @ [''manifest.json'']"
  by (rule joinpath_single) simp_all

lemma run_name_single:
  assumes "valid_datetime now" and "r < 10000"
  shows "joinpath p (strftime_run now @ ''-'' @ zfill 4 (str_nat r))
       = p @ [strftime_run now @ ''-'' @ zfill 4 (str_nat r)]"
proof -
  let ?s = "strftime_run now @ ''-'' @ zfill 4 (str_nat r)"
  from run_name_shape [OF assms] obtain a b c where
    s: "?s = a @ ''T'' @ b @ ''Z-'' @ c" and
    l: "length a = 8" "length b = 6" "length c = 4" and
    d: "list_all is_digit a" "list_all is_digit b" "list_all is_digit c"
    by blast
  have ns: "CHR ''/'' \<notin> set ?s"
    unfolding s by (rule shape_no_slash [OF d])
  have n0: "?s \<noteq> []" "?s \<noteq> ''.''"
    unfolding s using l by auto
  show ?thesis by (rule joinpath_single [OF ns n0])
qed

text \<open>
  C9. When a regular file occupies the path \<^verbatim>\<open>.unslop\<close> of a project,
  \<^verbatim>\<open>ensure_unslop_dir\<close> removes it and creates a directory in its place, and
  \<^verbatim>\<open>create_run_dir\<close> then creates the run directory below it; a manifest written
  into that run directory is read back as written, and nothing outside the state
  directory changes.
\<close>

theorem legacy_marker_replaced:
  assumes w: "wf_fs f" and r: "is_dir f root" and m: "is_file f (root @ [''.unslop''])"
    and v: "valid_datetime now" and n: "randbelow < 10000"
  shows "\<exists>f1 run_dir f2 f3.
           ensure_unslop_dir f root = Inr (root @ [''.unslop''], f1)
         \<and> is_dir f1 (root @ [''.unslop''])
         \<and> \<not> is_file f1 (root @ [''.unslop''])
         \<and> create_run_dir f root now randbelow = Inr (run_dir, f2)
         \<and> parent run_dir = root @ [''.unslop'']
         \<and> is_dir f2 (root @ [''.unslop''])
         \<and> is_dir f2 run_dir
         \<and> write_text f2 (joinpath run_dir ''manifest.json'') manifest_text = Inr f3
         \<and> read_text f3 (joinpath run_dir ''manifest.json'') = Inr manifest_text
         \<and> is_dir f3 (root @ [''.unslop''])
         \<and> (\<forall>q. \<not> startswith q (root @ [''.unslop'']) \<longrightarrow> map_of f3 q = map_of f q)"
proof -
  define s where "s = strftime_run now @ CHR ''-'' # zfill 4 (str_nat randbelow)"
  let ?p = "root @ [''.unslop'']"
  let ?rd = "root @ [''.unslop'', s]"
  let ?fp = "root @ [''.unslop'', s, ''manifest.json'']"
  let ?f1 = "AList.update ?p Dir (AList.delete ?p f)"
  let ?f2 = "AList.update ?rd Dir ?f1"
  let ?f3 = "AList.update ?fp (File manifest_text) ?f2"
  have e: "ensure_unslop_dir f root = Inr (?p, ?f1)"
    by (rule ensure_unslop_dir_marker [OF r m])
  have m1: "map_of ?f1 = (map_of f)(?p \<mapsto> Dir)"
    by (simp add: update_conv' delete_conv')
  have "map_of f (?p @ [s]) = None"
    by (rule below_file_absent(1) [OF w m])
  then have a1: "map_of f ?rd = None"
    by simp
  have "map_of f (?p @ [s, ''manifest.json'']) = None"
    by (rule below_file_absent(2) [OF w m])
  then have a2: "map_of f ?fp = None"
    by simp
  have "joinpath ?p (strftime_run now @ ''-'' @ zfill 4 (str_nat randbelow))
      = ?p @ [strftime_run now @ ''-'' @ zfill 4 (str_nat randbelow)]"
    by (rule run_name_single [OF v n])
  then have j: "joinpath ?p s = ?rd"
    by (simp add: s_def)
  have k1: "mkdir ?f1 ?rd False = Inr ?f2"
    by (simp add: mkdir_def exists_def is_dir_def is_file_def m1 a1 parent_def butlast_append)
  have c: "create_run_dir f root now randbelow = Inr (?rd, ?f2)"
    by (simp add: create_run_dir_def e Let_def s_def [symmetric] j k1)
  have m2: "map_of ?f2 = (map_of f)(?p \<mapsto> Dir, ?rd \<mapsto> Dir)"
    by (simp add: update_conv' delete_conv')
  have jf: "joinpath ?rd ''manifest.json'' = ?fp"
    by (simp add: joinpath_manifest_json)
  have k2: "write_text ?f2 ?fp manifest_text = Inr ?f3"
    by (simp add: write_text_def is_dir_def is_file_def m2 a2 parent_def butlast_append)
  have m3: "map_of ?f3 = (map_of f)(?p \<mapsto> Dir, ?rd \<mapsto> Dir, ?fp \<mapsto> File manifest_text)"
    by (simp add: update_conv' delete_conv')
  have "is_dir ?f1 ?p" "\<not> is_file ?f1 ?p"
    by (simp_all add: is_dir_def is_file_def m1)
  moreover have "parent ?rd = ?p"
    by (simp add: parent_def butlast_append)
  moreover have "is_dir ?f2 ?p" "is_dir ?f2 ?rd"
    by (simp_all add: is_dir_def m2)
  moreover have "write_text ?f2 (joinpath ?rd ''manifest.json'') manifest_text = Inr ?f3"
    by (simp only: jf k2)
  moreover have "read_text ?f3 (joinpath ?rd ''manifest.json'') = Inr manifest_text"
    by (simp add: jf read_text_def m3)
  moreover have "is_dir ?f3 ?p"
    by (simp add: is_dir_def m3)
  moreover have "\<forall>q. \<not> startswith q ?p \<longrightarrow> map_of ?f3 q = map_of f q"
    by (auto simp: m3 startswith_def)
  ultimately show ?thesis
    using e c by blast
qed

theorem legacy_marker_replaced_witness:
  "wf_fs ex_fs_marker \<and> is_dir ex_fs_marker ex_root \<and> is_file ex_fs_marker (ex_root @ [''.unslop''])
   \<and> valid_datetime ex_now \<and> (42::nat) < 10000
   \<and> (\<exists>f1 run_dir f2 f3.
           ensure_unslop_dir ex_fs_marker ex_root = Inr (ex_root @ [''.unslop''], f1)
         \<and> is_dir f1 (ex_root @ [''.unslop''])
         \<and> create_run_dir ex_fs_marker ex_root ex_now 42 = Inr (run_dir, f2)
         \<and> write_text f2 (joinpath run_dir ''manifest.json'') ''{}'' = Inr f3
         \<and> read_text f3 (joinpath run_dir ''manifest.json'') = Inr ''{}''
         \<and> map_of f3 [''proj'', ''file.txt''] = map_of ex_fs_marker [''proj'', ''file.txt''])"
proof -
  have 1: "wf_fs ex_fs_marker" by code_simp
  have 2: "is_dir ex_fs_marker ex_root" by code_simp
  have 3: "is_file ex_fs_marker (ex_root @ [''.unslop''])" by code_simp
  have 4: "valid_datetime ex_now" by code_simp
  have 5: "(42::nat) < 10000" by simp
  have 6: "\<not> startswith [''proj'', ''file.txt''] (ex_root @ [''.unslop''])"
    by code_simp
  from legacy_marker_replaced [OF 1 2 3 4 5, of "''{}''"] 6
  have "\<exists>f1 run_dir f2 f3.
           ensure_unslop_dir ex_fs_marker ex_root = Inr (ex_root @ [''.unslop''], f1)
         \<and> is_dir f1 (ex_root @ [''.unslop''])
         \<and> create_run_dir ex_fs_marker ex_root ex_now 42 = Inr (run_dir, f2)
         \<and> write_text f2 (joinpath run_dir ''manifest.json'') ''{}'' = Inr f3
         \<and> read_text f3 (joinpath run_dir ''manifest.json'') = Inr ''{}''
         \<and> map_of f3 [''proj'', ''file.txt''] = map_of ex_fs_marker [''proj'', ''file.txt'']"
    by blast
  with 1 2 3 4 5 show ?thesis by blast
qed

section \<open>Reusing node diagrams: properties\<close>












section \<open>Failures of the schema request and of the renderer\<close>





text \<open>
  The writer of the overview diagram is called outside any \<^verbatim>\<open>try\<close>: what it raises
  is raised by the overview function.
\<close>

lemma finish_overview_d2_raises:
  assumes "write_text (files w) (joinpath output_dir ''overview.json'') overview_schema = Inr f1"
    and "get_overview_d2_diagram sv f1 (joinpath output_dir ''overview.json'') output_dir = Inl e"
  shows "fst (finish_overview sv w (Inr overview_schema) source_dir output_dir previous_run_dir)
       = Inl e"
  using assms by (simp add: finish_overview_def Let_def)






end
